theory Spec2Isabelle
  imports Main
begin

section \<open>Python strings\<close>

text \<open>
  The string operations of Python that \<^verbatim>\<open>pathext/core.py\<close> uses, on \<open>string\<close>
  (a list of characters). Each is the library function restricted to the way the source
  calls it: a separator of one character, a prefix, a set of characters to strip.
\<close>

text \<open>\<^verbatim>\<open>s.split(c)\<close> for a separator of one character: never empty, one more part than
  there are separators.\<close>

fun split_on :: "char \<Rightarrow> string \<Rightarrow> string list" where
  "split_on c [] = [[]]"
| "split_on c (x # xs) =
     (if x = c then [] # split_on c xs
      else (case split_on c xs of
              [] \<Rightarrow> [[x]]
            | part # parts \<Rightarrow> (x # part) # parts))"

text \<open>\<^verbatim>\<open>s.startswith(t)\<close>.\<close>

fun startswith :: "string \<Rightarrow> string \<Rightarrow> bool" where
  "startswith s [] = True"
| "startswith [] (y # ys) = False"
| "startswith (x # xs) (y # ys) = (x = y \<and> startswith xs ys)"

text \<open>\<^verbatim>\<open>s.lstrip(chars)\<close> and \<^verbatim>\<open>s.strip(chars)\<close>: the characters of \<open>chars\<close> are
  removed from the left end, and from both ends.\<close>

definition lstrip :: "string \<Rightarrow> string \<Rightarrow> string" where
  "lstrip chars s = dropWhile (\<lambda>c. c \<in> set chars) s"

definition strip :: "string \<Rightarrow> string \<Rightarrow> string" where
  "strip chars s = rev (lstrip chars (rev (lstrip chars s)))"

text \<open>\<^verbatim>\<open>t in s\<close> on two strings: \<open>t\<close> occurs in \<open>s\<close> as a contiguous substring.\<close>

fun str_contains :: "string \<Rightarrow> string \<Rightarrow> bool" where
  "str_contains [] t = startswith [] t"
| "str_contains (x # xs) t = (startswith (x # xs) t \<or> str_contains xs t)"

section \<open>The registry and its loader\<close>

text \<open>
  The two class attributes \<^verbatim>\<open>_ext2mime_map\<close> and \<^verbatim>\<open>_mime2ext_map\<close> of
  \<^verbatim>\<open>PathExt\<close>: dictionaries from a string to a list of strings, shared by every
  instance and mutated in place by \<^verbatim>\<open>_load\<close>. Both start empty. (An Isabelle name
  cannot begin with an underscore, so the leading underscore of the source's names is
  dropped throughout.)
\<close>

record registry =
  ext2mime_map :: "string \<rightharpoonup> string list"
  mime2ext_map :: "string \<rightharpoonup> string list"

definition empty_registry :: registry where
  "empty_registry = \<lparr>ext2mime_map = Map.empty, mime2ext_map = Map.empty\<rparr>"

text \<open>The exceptions the modelled code can raise.\<close>

datatype py_error = ValueError | TypeError | OSError

text \<open>
  What \<^verbatim>\<open>/usr/share/mime/globs\<close> is when \<^verbatim>\<open>_load\<close> looks at it: not a regular
  file, a file whose reading fails, or a file with the given lines
  (\<^verbatim>\<open>read_text().splitlines()\<close>).
\<close>

datatype globs_file = Absent | Unreadable | Content "string list"

text \<open>
  The body of the loop of \<^verbatim>\<open>_load\<close> for one line. The unpacking
  \<^verbatim>\<open>mime, ext = ln.split(':')\<close> raises \<^verbatim>\<open>ValueError\<close> unless the line has exactly
  one colon; it does so before either table is touched.
\<close>

definition load_line :: "registry \<Rightarrow> string \<Rightarrow> py_error + registry" where
  "load_line r ln =
     (if ln \<noteq> [] \<and> \<not> startswith ln ''#'' then
        (case split_on CHR '':'' ln of
           [mime, ext0] \<Rightarrow>
             (let ext = strip ''*'' ext0;
                  e2m = (case ext2mime_map r ext of
                           Some mimes \<Rightarrow>
                             (if mime \<notin> set mimes
                              then (ext2mime_map r)(ext \<mapsto> mimes @ [mime])
                              else ext2mime_map r)
                         | None \<Rightarrow> (ext2mime_map r)(ext \<mapsto> [mime]));
                  m2e = (case mime2ext_map r mime of
                           Some es \<Rightarrow> (mime2ext_map r)(mime \<mapsto> es @ [ext])
                         | None \<Rightarrow> (mime2ext_map r)(mime \<mapsto> [ext]))
              in Inr \<lparr>ext2mime_map = e2m, mime2ext_map = m2e\<rparr>)
         | _ \<Rightarrow> Inl ValueError)
      else Inr r)"

text \<open>
  The loop over the lines. The tables are mutated in place, so when a line raises, the
  entries of the lines before it stay: the result is the registry as the loop left it,
  with the exception if there was one.
\<close>

fun load_lines :: "registry \<Rightarrow> string list \<Rightarrow> registry \<times> py_error option" where
  "load_lines r [] = (r, None)"
| "load_lines r (ln # lns) =
     (case load_line r ln of
        Inl e \<Rightarrow> (r, Some e)
      | Inr r' \<Rightarrow> load_lines r' lns)"

text \<open>\<^verbatim>\<open>PathExt._load\<close>: nothing is read when the globs file is not a regular file.\<close>

fun load :: "globs_file \<Rightarrow> registry \<Rightarrow> registry \<times> py_error option" where
  "load Absent r = (r, None)"
| "load Unreadable r = (r, Some OSError)"
| "load (Content lns) r = load_lines r lns"

text \<open>
  \<^verbatim>\<open>PathExt.__new__\<close> runs \<^verbatim>\<open>_load\<close> every time a path object is made. The registry
  after a sequence of load steps, each with the globs file as it was at that moment:
\<close>

fun load_steps :: "registry \<Rightarrow> globs_file list \<Rightarrow> registry" where
  "load_steps r [] = r"
| "load_steps r (src # srcs) = load_steps (fst (load src r)) srcs"

text \<open>
  A line of the globs file is entered in \<open>ext2mime_map\<close> when the loop skips it, or
  when its MIME type is in the list of its extension.
\<close>

definition entered :: "registry \<Rightarrow> string \<Rightarrow> bool" where
  "entered r ln =
     (ln = [] \<or> startswith ln ''#'' \<or>
      (\<exists>mime ext0 ms. split_on CHR '':'' ln = [mime, ext0]
         \<and> ext2mime_map r (strip ''*'' ext0) = Some ms \<and> mime \<in> set ms))"

section \<open>Paths and what the operating system says about them\<close>

text \<open>
  \<^verbatim>\<open>PathExt\<close> inherits \<^verbatim>\<open>name\<close>, \<^verbatim>\<open>suffix\<close> and \<^verbatim>\<open>suffixes\<close> from
  \<^verbatim>\<open>pathlib\<close>. They depend on the last component of the path only; the two functions
  below are pathlib's definitions (Python 3.8 to 3.12) on that component.
  \<^verbatim>\<open>s.rfind(c)\<close> is the index of the last \<open>c\<close> in \<open>s\<close>, or \<open>-1\<close>.
\<close>

definition rfind :: "char \<Rightarrow> string \<Rightarrow> int" where
  "rfind c s =
     (if c \<in> set s
      then int (length s) - 1 - int (length (takeWhile (\<lambda>x. x \<noteq> c) (rev s)))
      else - 1)"

definition py_suffix :: "string \<Rightarrow> string" where
  "py_suffix nm =
     (let i = rfind CHR ''.'' nm
      in if 0 < i \<and> i < int (length nm) - 1 then drop (nat i) nm else [])"

definition py_suffixes :: "string \<Rightarrow> string list" where
  "py_suffixes nm =
     (if nm \<noteq> [] \<and> last nm = CHR ''.'' then []
      else map (\<lambda>s. CHR ''.'' # s) (tl (split_on CHR ''.'' (lstrip ''.'' nm))))"

text \<open>
  A path object, together with the answers of its collaborators at the time of the
  call: whether \<^verbatim>\<open>resolve()\<close> raises, what \<^verbatim>\<open>is_file()\<close> and \<^verbatim>\<open>is_dir()\<close> say
  (both follow symlinks, and both can raise), what \<^verbatim>\<open>os.access\<close> says for a mode, and
  what the sniffer \<^verbatim>\<open>binaryornot.check.is_binary\<close> says about the content.
\<close>

record pathext =
  name :: string
  os_resolve_error :: "py_error option"
  os_is_file :: "py_error + bool"
  os_is_dir :: "py_error + bool"
  os_access :: "nat \<Rightarrow> bool"
  sniff_binary :: "py_error + bool"

text \<open>\<^verbatim>\<open>PathPerm.F_R = os.R_OK\<close> and \<^verbatim>\<open>PathPerm.D_RX = os.R_OK | os.X_OK\<close>.\<close>

definition F_R :: nat where
  "F_R = 4"

definition D_RX :: nat where
  "D_RX = 5"

definition is_file :: "pathext \<Rightarrow> py_error + bool" where
  "is_file p = os_is_file p"

definition is_dir :: "pathext \<Rightarrow> py_error + bool" where
  "is_dir p = os_is_dir p"

text \<open>
  \<^verbatim>\<open>PathExt.exts\<close>. \<^verbatim>\<open>_tmp_path\<close> is first a plain \<^verbatim>\<open>Path\<close>, whose
  \<^verbatim>\<open>is_symlink\<close> is a bound method and so always true as a condition: the path is
  always resolved. \<^verbatim>\<open>resolve()\<close> gives a \<^verbatim>\<open>PathExt\<close> again, whose \<^verbatim>\<open>is_file\<close> is
  the property. When the resolved path is not a regular file the function falls off its
  end and returns \<^verbatim>\<open>None\<close>. \<^verbatim>\<open>suffixes[-2:]\<close> is the last two suffixes, or all of them
  when there are fewer.
\<close>

definition exts :: "pathext \<Rightarrow> py_error + string option" where
  "exts p =
     (case os_resolve_error p of
        Some e \<Rightarrow> Inl e
      | None \<Rightarrow>
          (case is_file p of
             Inl e \<Rightarrow> Inl e
           | Inr regular \<Rightarrow>
               (if regular then
                  (let suffixes = py_suffixes (name p)
                   in if ''.tar'' \<in> set suffixes
                      then Inr (Some (concat (drop (length suffixes - 2) suffixes)))
                      else Inr (Some (py_suffix (name p))))
                else Inr None)))"

text \<open>\<^verbatim>\<open>PathExt.extension\<close>: the loop, with \<^verbatim>\<open>file_ext\<close> as its accumulator.\<close>

fun extension_loop :: "registry \<Rightarrow> string list \<Rightarrow> string \<Rightarrow> string" where
  "extension_loop r [] file_ext = file_ext"
| "extension_loop r (suffix # rest) file_ext =
     extension_loop r rest
       (if ext2mime_map r suffix \<noteq> None then file_ext @ suffix else file_ext)"

definition extension :: "registry \<Rightarrow> pathext \<Rightarrow> string" where
  "extension r p = extension_loop r (py_suffixes (name p)) []"

text \<open>
  \<^verbatim>\<open>PathExt.mime\<close> returns \<^verbatim>\<open>None\<close>, a string or a list of strings:
  \<^verbatim>\<open>result[0] if len(result or []) == 1 else result\<close>.
\<close>

datatype py_value = PyNone | PyStr string | PyList "string list"

definition mime :: "registry \<Rightarrow> pathext \<Rightarrow> py_value" where
  "mime r p =
     (let file_ext = extension r p;
          result = ext2mime_map r file_ext
      in if length (case result of None \<Rightarrow> [] | Some ms \<Rightarrow> ms) = 1
         then (case result of None \<Rightarrow> PyNone | Some ms \<Rightarrow> PyStr (hd ms))
         else (case result of None \<Rightarrow> PyNone | Some ms \<Rightarrow> PyList ms))"

text \<open>
  \<^verbatim>\<open>x in v\<close> for a string \<open>x\<close>: a substring test when \<open>v\<close> is a string, a test for an
  equal element when \<open>v\<close> is a list, and \<^verbatim>\<open>TypeError\<close> when \<open>v\<close> is \<^verbatim>\<open>None\<close>.
\<close>

fun py_in :: "string \<Rightarrow> py_value \<Rightarrow> py_error + bool" where
  "py_in x PyNone = Inl TypeError"
| "py_in x (PyStr s) = Inr (str_contains s x)"
| "py_in x (PyList xs) = Inr (x \<in> set xs)"

text \<open>
  \<^verbatim>\<open>PathExt.is_readable\<close>:
  \<^verbatim>\<open>
  _tmp_path = self.resolve()
  if _tmp_path.is_file or _tmp_path.is_dir:
      return os.access(self, PathPerm.D_RX if _tmp_path.is_dir else PathPerm.F_R)
  else:
      return False
  \<close>
\<close>

definition is_readable :: "pathext \<Rightarrow> py_error + bool" where
  "is_readable p =
     (case os_resolve_error p of
        Some e \<Rightarrow> Inl e
      | None \<Rightarrow>
          (case is_file p of
             Inl e \<Rightarrow> Inl e
           | Inr regular \<Rightarrow>
               (case (if regular then Inr True else is_dir p) of
                  Inl e \<Rightarrow> Inl e
                | Inr file_or_dir \<Rightarrow>
                    (if file_or_dir then
                       (case is_dir p of
                          Inl e \<Rightarrow> Inl e
                        | Inr d \<Rightarrow> Inr (os_access p (if d then D_RX else F_R)))
                     else Inr False))))"

text \<open>\<^verbatim>\<open>PathExt.is_binary\<close>:
  \<^verbatim>\<open>self.is_readable and is_binary(Str(self.resolve()))\<close>. The sniffer is called only
  when the path is readable.\<close>

definition is_binary :: "pathext \<Rightarrow> py_error + bool" where
  "is_binary p =
     (case is_readable p of
        Inl e \<Rightarrow> Inl e
      | Inr readable \<Rightarrow>
          (if readable then
             (case os_resolve_error p of
                Some e \<Rightarrow> Inl e
              | None \<Rightarrow> sniff_binary p)
           else Inr False))"

text \<open>The class attribute \<^verbatim>\<open>_decompress_cmd_map\<close>, entry by entry.\<close>

definition decompress_cmd_map :: "string \<rightharpoonup> string" where
  \<open>decompress_cmd_map = map_of [
      (''.7z'', ''7z -mmt2 x "{}"''),
      (''.Z'', ''uncompress.real "{}"''),
      (''.ace'', ''''),
      (''.ar'', ''''),
      (''.arj'', ''''),
      (''.arz'', ''''),
      (''.bz2'', ''pbzip2 -d  "{}" ''),
      (''.bz'', ''pbzip2 -d  "{}" ''),
      (''.bzip2'', ''pbzip2 -d "{}" ''),
      (''.gz'', ''unpigz -p4 "{}" ''),
      (''.gzip'', ''unpigz -p 4 "{}" ''),
      (''.lrz'', ''''),
      (''.lz'', ''''),
      (''.lz4'', ''''),
      (''.lzh'', ''''),
      (''.lzip'', ''''),
      (''.lzma'', ''''),
      (''.lzo'', ''''),
      (''.pea'', ''''),
      (''.rar'', ''rar x "{}"''),
      (''.tZ'', ''''),
      (''.tar'', ''tar -xf "{}"''),
      (''.tar.Z'', ''tar --use-comppress-program="uncompress.real" -xf "{}"''),
      (''.tar.bz'', ''tar   --use-compress-program=pbzip2 -xf''),
      (''.tar.bz2'', ''tar  --use-compress-program=pbzip2 -xjf "{}"''),
      (''.tar.bzip'', ''''),
      (''.tar.bzip2'', ''tar -xjf "{}"''),
      (''.tar.gz'', ''tar -xzf "{}"''),
      (''.tar.lrz'', ''''),
      (''.tar.lz'', ''''),
      (''.tar.lz4'', ''''),
      (''.tar.lzip'', ''tar --lzip -xf "{}"''),
      (''.tar.lzma'', ''tar --lzma -xf "{}"''),
      (''.tar.lzo'', ''''),
      (''.tar.xz'', ''tar --xz -xf "{}"''),
      (''.tar.z'', ''''),
      (''.tar.zst'', ''''),
      (''.tar.zstd'', ''tar --zstd -xf "{}"''),
      (''.tarbz2'', ''tar --use-compress-program="lbzip2" -xf "{}"''),
      (''.taz'', ''''),
      (''.tbz'', ''tar -xjf "{}"''),
      (''.tbz2'', ''tar -xjf "{}"''),
      (''.tgz'', ''tar -xzf "{}"''),
      (''.tlrz'', ''''),
      (''.tlz'', ''''),
      (''.txz'', ''''),
      (''.tz'', ''''),
      (''.tzst'', ''''),
      (''.wmz'', ''''),
      (''.xz'', ''xz --decompress "{}"''),
      (''.zip'', ''unzip "{}"''),
      (''.zipx'', ''''),
      (''.zz'', '''')]\<close>

text \<open>\<^verbatim>\<open>PathExt.is_compressed\<close>:
  \<^verbatim>\<open>self.is_binary and self.extension in self._decompress_cmd_map\<close>.\<close>

definition is_compressed :: "registry \<Rightarrow> pathext \<Rightarrow> py_error + bool" where
  "is_compressed r p =
     (case is_binary p of
        Inl e \<Rightarrow> Inl e
      | Inr binary \<Rightarrow>
          (if binary then Inr (decompress_cmd_map (extension r p) \<noteq> None)
           else Inr False))"

text \<open>\<^verbatim>\<open>PathExt.is_video\<close>:
  \<^verbatim>\<open>self.is_binary and (self.extension.strip('.') in self.mime or 'video' in self.mime)\<close>,
  and its two siblings, which differ in the literal only.\<close>

definition is_video :: "registry \<Rightarrow> pathext \<Rightarrow> py_error + bool" where
  "is_video r p =
     (case is_binary p of
        Inl e \<Rightarrow> Inl e
      | Inr binary \<Rightarrow>
          (if binary then
             (case py_in (strip ''.'' (extension r p)) (mime r p) of
                Inl e \<Rightarrow> Inl e
              | Inr found \<Rightarrow> (if found then Inr True else py_in ''video'' (mime r p)))
           else Inr False))"

definition is_audio :: "registry \<Rightarrow> pathext \<Rightarrow> py_error + bool" where
  "is_audio r p =
     (case is_binary p of
        Inl e \<Rightarrow> Inl e
      | Inr binary \<Rightarrow>
          (if binary then
             (case py_in (strip ''.'' (extension r p)) (mime r p) of
                Inl e \<Rightarrow> Inl e
              | Inr found \<Rightarrow> (if found then Inr True else py_in ''audio'' (mime r p)))
           else Inr False))"

definition is_font :: "registry \<Rightarrow> pathext \<Rightarrow> py_error + bool" where
  "is_font r p =
     (case is_binary p of
        Inl e \<Rightarrow> Inl e
      | Inr binary \<Rightarrow>
          (if binary then
             (case py_in (strip ''.'' (extension r p)) (mime r p) of
                Inl e \<Rightarrow> Inl e
              | Inr found \<Rightarrow> (if found then Inr True else py_in ''font'' (mime r p)))
           else Inr False))"

section \<open>The decompression command\<close>

text \<open>
  Modelled from the spec: the source holds the table \<^verbatim>\<open>_decompress_cmd_map\<close> and no
  function that fills a template in. The specification describes one,
  \<^verbatim>\<open>decompression_command(resolved_extension, target_path)\<close>: it looks the template
  of the extension up; if it is found and not empty, the target path is substituted into
  the template's placeholder and the command is returned; if the extension is not in the
  table or its template is empty, the result is absence. The placeholder of the table's
  templates is \<^verbatim>\<open>{}\<close>; \<open>substitute\<close> puts the path in place of its first occurrence
  and leaves a template without one as it is.
\<close>

fun substitute :: "string \<Rightarrow> string \<Rightarrow> string" where
  "substitute [] path = []"
| "substitute (c # cs) path =
     (if startswith (c # cs) ''{}'' then path @ drop 2 (c # cs)
      else c # substitute cs path)"

text \<open>
  Modelled from the spec: \<^verbatim>\<open>decompression_command\<close> itself, which the source
  does not have. It reads the source's table \<open>decompress_cmd_map\<close>.
\<close>

definition decompression_command :: "string \<Rightarrow> string \<Rightarrow> string option" where
  "decompression_command ext path =
     (case decompress_cmd_map ext of
        None \<Rightarrow> None
      | Some template \<Rightarrow>
          (if template = [] then None else Some (substitute template path)))"

section \<open>The resolver as the specification words it\<close>

text \<open>
  The specification describes the resolver as a search for the longest chain of suffixes,
  from some position to the end, whose concatenation is a key of the extension table.
  This second definition follows those words; it is compared with \<open>extension\<close> below
  and is used for nothing else.
\<close>

fun spec_resolve_extension :: "registry \<Rightarrow> string list \<Rightarrow> string" where
  "spec_resolve_extension r [] = []"
| "spec_resolve_extension r (s # rest) =
     (if ext2mime_map r (concat (s # rest)) \<noteq> None then concat (s # rest)
      else spec_resolve_extension r rest)"

section \<open>Concrete inputs\<close>

text \<open>The registry after one load of a globs file with the given lines, from empty tables.\<close>

definition loaded :: "string list \<Rightarrow> registry" where
  "loaded lns = fst (load (Content lns) empty_registry)"

text \<open>A readable regular file of binary content; a regular file the caller may not read,
  so that opening it fails; a readable directory, which cannot be opened as a file.\<close>

definition binary_file :: "string \<Rightarrow> pathext" where
  "binary_file nm =
     \<lparr>name = nm, os_resolve_error = None, os_is_file = Inr True, os_is_dir = Inr False,
      os_access = (\<lambda>mode. True), sniff_binary = Inr True\<rparr>"

definition unreadable_file :: "string \<Rightarrow> pathext" where
  "unreadable_file nm =
     \<lparr>name = nm, os_resolve_error = None, os_is_file = Inr True, os_is_dir = Inr False,
      os_access = (\<lambda>mode. False), sniff_binary = Inl OSError\<rparr>"

definition directory :: "string \<Rightarrow> pathext" where
  "directory nm =
     \<lparr>name = nm, os_resolve_error = None, os_is_file = Inr False, os_is_dir = Inr True,
      os_access = (\<lambda>mode. True), sniff_binary = Inl OSError\<rparr>"

section \<open>Properties of the loader\<close>

lemmas eval_defs = loaded_def empty_registry_def load_line_def strip_def lstrip_def Let_def
  py_suffixes_def extension_def mime_def

lemmas prop_defs = is_video_def is_audio_def is_font_def is_compressed_def is_binary_def
  is_readable_def is_file_def is_dir_def F_R_def D_RX_def

lemma split_on_not_Nil: "split_on c s \<noteq> []"
  by (induction s) (auto split: list.splits)

lemma load_line_distinct:
  assumes step: "load_line r ln = Inr r'"
    and inv: "\<And>e ms. ext2mime_map r e = Some ms \<Longrightarrow> distinct ms"
    and look: "ext2mime_map r' e = Some ms"
  shows "distinct ms"
proof (cases "ln \<noteq> [] \<and> \<not> startswith ln ''#''")
  case False
  with step have "r' = r" by (auto simp: load_line_def)
  with inv look show ?thesis by simp
next
  case True
  with step obtain mime ext0 where parts: "split_on CHR '':'' ln = [mime, ext0]"
    by (auto simp: load_line_def split: list.splits)
  let ?ext = "strip ''*'' ext0"
  show ?thesis
  proof (cases "ext2mime_map r ?ext")
    case None
    with True step parts
    have "ext2mime_map r' = (ext2mime_map r)(?ext \<mapsto> [mime])"
      by (auto simp: load_line_def Let_def)
    with look inv show ?thesis by (cases "e = ?ext") auto
  next
    case (Some mimes)
    with inv have d: "distinct mimes" by blast
    show ?thesis
    proof (cases "mime \<in> set mimes")
      case True
      with \<open>ln \<noteq> [] \<and> \<not> startswith ln ''#''\<close> step parts Some
      have "ext2mime_map r' = ext2mime_map r"
        by (auto simp: load_line_def Let_def)
      with look inv show ?thesis by simp
    next
      case False
      with \<open>ln \<noteq> [] \<and> \<not> startswith ln ''#''\<close> step parts Some
      have "ext2mime_map r' = (ext2mime_map r)(?ext \<mapsto> mimes @ [mime])"
        by (auto simp: load_line_def Let_def)
      with look inv d False show ?thesis by (cases "e = ?ext") auto
    qed
  qed
qed

lemma load_lines_distinct:
  "(\<And>e ms. ext2mime_map r e = Some ms \<Longrightarrow> distinct ms) \<Longrightarrow>
   ext2mime_map (fst (load_lines r lns)) e = Some ms \<Longrightarrow> distinct ms"
proof (induction lns arbitrary: r)
  case Nil
  then show ?case by simp
next
  case (Cons ln lns)
  show ?case
  proof (cases "load_line r ln")
    case (Inl err)
    with Cons.prems show ?thesis by simp
  next
    case (Inr r')
    have "\<And>e ms. ext2mime_map r' e = Some ms \<Longrightarrow> distinct ms"
      using load_line_distinct [OF Inr] Cons.prems(1) by blast
    moreover from Inr Cons.prems(2)
    have "ext2mime_map (fst (load_lines r' lns)) e = Some ms" by simp
    ultimately show ?thesis by (rule Cons.IH)
  qed
qed

lemma load_distinct:
  "(\<And>e ms. ext2mime_map r e = Some ms \<Longrightarrow> distinct ms) \<Longrightarrow>
   ext2mime_map (fst (load src r)) e = Some ms \<Longrightarrow> distinct ms"
proof (cases src)
  case (Content lns)
  assume "\<And>e ms. ext2mime_map r e = Some ms \<Longrightarrow> distinct ms"
    and "ext2mime_map (fst (load src r)) e = Some ms"
  with Content show ?thesis
    using load_lines_distinct [of r lns e ms] by simp
qed simp_all

lemma load_steps_distinct:
  "(\<And>e ms. ext2mime_map r e = Some ms \<Longrightarrow> distinct ms) \<Longrightarrow>
   ext2mime_map (load_steps r srcs) e = Some ms \<Longrightarrow> distinct ms"
proof (induction srcs arbitrary: r)
  case Nil
  then show ?case by simp
next
  case (Cons src srcs)
  have "\<And>e ms. ext2mime_map (fst (load src r)) e = Some ms \<Longrightarrow> distinct ms"
    using load_distinct Cons.prems(1) by blast
  moreover from Cons.prems(2)
  have "ext2mime_map (load_steps (fst (load src r)) srcs) e = Some ms" by simp
  ultimately show ?case by (rule Cons.IH)
qed

text \<open>
  Claim C9. In every registry state reached from the empty registry by any number of load
  steps, whatever the globs file holds at each step and also when a step stops at a
  malformed line, no extension maps to a list that holds the same MIME type twice.
\<close>

theorem load_steps_no_duplicate_mime:
  "ext2mime_map (load_steps empty_registry srcs) e = Some ms \<Longrightarrow> distinct ms"
  by (rule load_steps_distinct [where r = empty_registry]) (simp_all add: empty_registry_def)

theorem load_steps_no_duplicate_mime_witness:
  "ext2mime_map
     (load_steps empty_registry
        [Content [''text/plain:*.txt'', ''text/x-log:*.txt'', ''text/plain:*.txt''],
         Content [''text/plain:*.txt'']]) ''.txt''
     = Some [''text/plain'', ''text/x-log'']
   \<and> distinct [''text/plain'', ''text/x-log'']"
proof -
  have look: "ext2mime_map
     (load_steps empty_registry
        [Content [''text/plain:*.txt'', ''text/x-log:*.txt'', ''text/plain:*.txt''],
         Content [''text/plain:*.txt'']]) ''.txt''
     = Some [''text/plain'', ''text/x-log'']"
    by (simp add: empty_registry_def load_line_def strip_def lstrip_def Let_def)
  from load_steps_no_duplicate_mime [OF look] look show ?thesis by simp
qed

text \<open>
  What a second load does to \<open>ext2mime_map\<close>. After a load that raised nothing, every
  line of the file is entered, and a load of lines that are all entered changes nothing
  in \<open>ext2mime_map\<close>.
\<close>

lemma load_line_cases:
  assumes step: "load_line r ln = Inr r'"
  obtains (skipped) "ln = [] \<or> startswith ln ''#''" "r' = r"
  | (fresh) mime ext0 where "ln \<noteq> []" "\<not> startswith ln ''#''"
      "split_on CHR '':'' ln = [mime, ext0]"
      "ext2mime_map r (strip ''*'' ext0) = None"
      "ext2mime_map r' = (ext2mime_map r)(strip ''*'' ext0 \<mapsto> [mime])"
  | (known) mime ext0 mimes where "ln \<noteq> []" "\<not> startswith ln ''#''"
      "split_on CHR '':'' ln = [mime, ext0]"
      "ext2mime_map r (strip ''*'' ext0) = Some mimes" "mime \<in> set mimes"
      "ext2mime_map r' = ext2mime_map r"
  | (appended) mime ext0 mimes where "ln \<noteq> []" "\<not> startswith ln ''#''"
      "split_on CHR '':'' ln = [mime, ext0]"
      "ext2mime_map r (strip ''*'' ext0) = Some mimes" "mime \<notin> set mimes"
      "ext2mime_map r' = (ext2mime_map r)(strip ''*'' ext0 \<mapsto> mimes @ [mime])"
proof (cases "ln \<noteq> [] \<and> \<not> startswith ln ''#''")
  case False
  with step have "r' = r" by (auto simp: load_line_def)
  with False skipped show ?thesis by blast
next
  case True
  with step obtain mime ext0 where parts: "split_on CHR '':'' ln = [mime, ext0]"
    by (auto simp: load_line_def split: list.splits)
  let ?ext = "strip ''*'' ext0"
  show ?thesis
  proof (cases "ext2mime_map r ?ext")
    case None
    with True step parts
    have "ext2mime_map r' = (ext2mime_map r)(?ext \<mapsto> [mime])"
      by (auto simp: load_line_def Let_def)
    with True parts None fresh show ?thesis by blast
  next
    case (Some mimes)
    show ?thesis
    proof (cases "mime \<in> set mimes")
      case in_list: True
      with True step parts Some
      have "ext2mime_map r' = ext2mime_map r"
        by (auto simp: load_line_def Let_def)
      with True parts Some in_list known show ?thesis by blast
    next
      case not_in_list: False
      with True step parts Some
      have "ext2mime_map r' = (ext2mime_map r)(?ext \<mapsto> mimes @ [mime])"
        by (auto simp: load_line_def Let_def)
      with True parts Some not_in_list appended show ?thesis by blast
    qed
  qed
qed

lemma load_line_entered_noop:
  "entered r ln \<Longrightarrow> \<exists>r'. load_line r ln = Inr r' \<and> ext2mime_map r' = ext2mime_map r"
  by (auto simp: entered_def load_line_def Let_def)

lemma load_line_grows:
  assumes step: "load_line r ln = Inr r'" and look: "ext2mime_map r e = Some ms"
  shows "\<exists>ms'. ext2mime_map r' e = Some ms' \<and> set ms \<subseteq> set ms'"
  using step
proof (cases rule: load_line_cases)
  case skipped
  with look show ?thesis by auto
next
  case (fresh mime ext0)
  with look show ?thesis by (cases "e = strip ''*'' ext0") auto
next
  case (known mime ext0 mimes)
  with look show ?thesis by auto
next
  case (appended mime ext0 mimes)
  with look show ?thesis by (cases "e = strip ''*'' ext0") auto
qed

lemma load_line_enters:
  assumes step: "load_line r ln = Inr r'"
  shows "entered r' ln"
  using step
proof (cases rule: load_line_cases)
  case skipped
  then show ?thesis by (auto simp: entered_def)
next
  case (fresh mime ext0)
  then show ?thesis by (simp add: entered_def)
next
  case (known mime ext0 mimes)
  then show ?thesis by (simp add: entered_def)
next
  case (appended mime ext0 mimes)
  then show ?thesis by (simp add: entered_def)
qed

lemma entered_mono:
  assumes step: "load_line r ln = Inr r'" and ent: "entered r l"
  shows "entered r' l"
proof (cases "l = [] \<or> startswith l ''#''")
  case True
  then show ?thesis by (auto simp: entered_def)
next
  case False
  with ent obtain mime ext0 ms where parts: "split_on CHR '':'' l = [mime, ext0]"
    and look: "ext2mime_map r (strip ''*'' ext0) = Some ms" and mem: "mime \<in> set ms"
    by (auto simp: entered_def)
  from load_line_grows [OF step look] obtain ms'
    where "ext2mime_map r' (strip ''*'' ext0) = Some ms'" "set ms \<subseteq> set ms'"
    by blast
  with parts mem show ?thesis unfolding entered_def by blast
qed

lemma entered_cong: "ext2mime_map r' = ext2mime_map r \<Longrightarrow> entered r' ln = entered r ln"
  by (simp add: entered_def)

lemma load_lines_all_entered:
  "(\<And>ln. ln \<in> set lns \<Longrightarrow> entered r ln) \<Longrightarrow>
   snd (load_lines r lns) = None \<and> ext2mime_map (fst (load_lines r lns)) = ext2mime_map r"
proof (induction lns arbitrary: r)
  case Nil
  then show ?case by simp
next
  case (Cons ln lns)
  from Cons.prems have "entered r ln" by simp
  then obtain r' where step: "load_line r ln = Inr r'" and same: "ext2mime_map r' = ext2mime_map r"
    using load_line_entered_noop by blast
  have "\<And>l. l \<in> set lns \<Longrightarrow> entered r' l"
    using Cons.prems entered_cong [OF same] by simp
  then have "snd (load_lines r' lns) = None
      \<and> ext2mime_map (fst (load_lines r' lns)) = ext2mime_map r'"
    by (rule Cons.IH)
  with step same show ?case by simp
qed

lemma load_lines_mono:
  "load_lines r lns = (r1, None) \<Longrightarrow> entered r l \<Longrightarrow> entered r1 l"
proof (induction lns arbitrary: r)
  case Nil
  then show ?case by simp
next
  case (Cons ln lns)
  from Cons.prems(1) obtain r' where step: "load_line r ln = Inr r'"
    and rest: "load_lines r' lns = (r1, None)"
    by (cases "load_line r ln") auto
  from step Cons.prems(2) have "entered r' l" by (rule entered_mono)
  with rest show ?case by (rule Cons.IH)
qed

lemma load_lines_enters:
  "load_lines r lns = (r1, None) \<Longrightarrow> ln \<in> set lns \<Longrightarrow> entered r1 ln"
proof (induction lns arbitrary: r)
  case Nil
  then show ?case by simp
next
  case (Cons l lns)
  from Cons.prems(1) obtain r' where step: "load_line r l = Inr r'"
    and rest: "load_lines r' lns = (r1, None)"
    by (cases "load_line r l") auto
  show ?case
  proof (cases "ln = l")
    case True
    from step have "entered r' l" by (rule load_line_enters)
    with rest have "entered r1 l" by (rule load_lines_mono)
    with True show ?thesis by simp
  next
    case False
    with Cons.prems(2) have "ln \<in> set lns" by simp
    with rest show ?thesis by (rule Cons.IH)
  qed
qed

lemma second_load_keeps_ext2mime:
  assumes first: "load src r = (r1, None)"
  shows "snd (load src r1) = None \<and> ext2mime_map (fst (load src r1)) = ext2mime_map r1"
proof (cases src)
  case Absent
  then show ?thesis by simp
next
  case Unreadable
  with first show ?thesis by simp
next
  case (Content lns)
  with first have "load_lines r lns = (r1, None)" by simp
  then have "\<And>ln. ln \<in> set lns \<Longrightarrow> entered r1 ln" by (rule load_lines_enters)
  then have "snd (load_lines r1 lns) = None
      \<and> ext2mime_map (fst (load_lines r1 lns)) = ext2mime_map r1"
    by (rule load_lines_all_entered)
  with Content show ?thesis by simp
qed

text \<open>
  Claim C2. The claim: a second load leaves both tables as the first load left them. The
  code keeps \<open>ext2mime_map\<close> free of repetitions with its test
  \<^verbatim>\<open>if mime not in cls._ext2mime_map[ext]\<close>, so that a second load leaves it as
  it is (\<open>second_load_keeps_ext2mime\<close>), but the sibling branch for
  \<open>mime2ext_map\<close> appends without a test. With a globs file of the single line
  \<^verbatim>\<open>text/plain:*.txt\<close>, both loads succeed, and the second one turns the entry
  of \<^verbatim>\<open>text/plain\<close> from one extension into the same extension twice.
\<close>

theorem second_load_duplicates_mime2ext:
  "snd (load (Content [''text/plain:*.txt'']) empty_registry) = None
   \<and> mime2ext_map (fst (load (Content [''text/plain:*.txt'']) empty_registry)) ''text/plain''
       = Some [''.txt'']
   \<and> snd (load (Content [''text/plain:*.txt''])
             (fst (load (Content [''text/plain:*.txt'']) empty_registry))) = None
   \<and> mime2ext_map (fst (load (Content [''text/plain:*.txt''])
             (fst (load (Content [''text/plain:*.txt'']) empty_registry)))) ''text/plain''
       = Some [''.txt'', ''.txt'']"
  by (simp add: eval_defs)

section \<open>Properties of the resolver\<close>

lemma extension_loop_filter:
  "extension_loop r sfx acc = acc @ concat (filter (\<lambda>s. ext2mime_map r s \<noteq> None) sfx)"
  by (induction sfx arbitrary: acc) auto

text \<open>
  Claim C10. The resolved extension of a path is the concatenation, in order, of those
  dot-suffixes of its name that are, each alone, keys of the extension table. So it need
  not be a key itself: for a path named \<^verbatim>\<open>a.jpeg.png\<close>, with \<^verbatim>\<open>.jpeg\<close> and
  \<^verbatim>\<open>.png\<close> registered and \<^verbatim>\<open>.jpeg.png\<close> not, the resolved extension is
  \<^verbatim>\<open>.jpeg.png\<close> and the MIME lookup on it gives \<^verbatim>\<open>None\<close>.
\<close>

theorem extension_concat_registered_suffixes:
  "extension r p = concat (filter (\<lambda>s. ext2mime_map r s \<noteq> None) (py_suffixes (name p)))
   \<and> ext2mime_map (loaded [''image/jpeg:*.jpeg'', ''image/png:*.png'']) ''.jpeg''
       = Some [''image/jpeg'']
   \<and> ext2mime_map (loaded [''image/jpeg:*.jpeg'', ''image/png:*.png'']) ''.png''
       = Some [''image/png'']
   \<and> extension (loaded [''image/jpeg:*.jpeg'', ''image/png:*.png''])
         (p\<lparr>name := ''a.jpeg.png''\<rparr>) = ''.jpeg.png''
   \<and> ext2mime_map (loaded [''image/jpeg:*.jpeg'', ''image/png:*.png'']) ''.jpeg.png'' = None
   \<and> mime (loaded [''image/jpeg:*.jpeg'', ''image/png:*.png''])
         (p\<lparr>name := ''a.jpeg.png''\<rparr>) = PyNone"
proof -
  have general:
    "extension r p = concat (filter (\<lambda>s. ext2mime_map r s \<noteq> None) (py_suffixes (name p)))"
    by (simp add: extension_def extension_loop_filter)
  have example:
    "ext2mime_map (loaded [''image/jpeg:*.jpeg'', ''image/png:*.png'']) ''.jpeg''
       = Some [''image/jpeg'']
     \<and> ext2mime_map (loaded [''image/jpeg:*.jpeg'', ''image/png:*.png'']) ''.png''
       = Some [''image/png'']
     \<and> extension (loaded [''image/jpeg:*.jpeg'', ''image/png:*.png''])
         (p\<lparr>name := ''a.jpeg.png''\<rparr>) = ''.jpeg.png''
     \<and> ext2mime_map (loaded [''image/jpeg:*.jpeg'', ''image/png:*.png'']) ''.jpeg.png'' = None
     \<and> mime (loaded [''image/jpeg:*.jpeg'', ''image/png:*.png''])
         (p\<lparr>name := ''a.jpeg.png''\<rparr>) = PyNone"
    by (simp add: eval_defs)
  from general example show ?thesis by blast
qed

text \<open>
  Claim C1, as stated, fails. For a path named \<^verbatim>\<open>data.tar.gz\<close> and a registry whose
  keys are \<^verbatim>\<open>.gz\<close> and \<^verbatim>\<open>.tar.gz\<close>, the longest chain of suffixes that is a key
  is \<^verbatim>\<open>.tar.gz\<close>, and the resolver returns \<^verbatim>\<open>.gz\<close>: it tests each suffix alone,
  and \<^verbatim>\<open>.tar\<close> is not a key.
\<close>

theorem extension_not_longest_registered_chain:
  "ext2mime_map (loaded [''application/gzip:*.gz'', ''application/x-compressed-tar:*.tar.gz'']) ''.gz''
     = Some [''application/gzip'']
   \<and> ext2mime_map (loaded [''application/gzip:*.gz'', ''application/x-compressed-tar:*.tar.gz'']) ''.tar.gz''
     = Some [''application/x-compressed-tar'']
   \<and> py_suffixes (name (binary_file ''data.tar.gz'')) = [''.tar'', ''.gz'']
   \<and> spec_resolve_extension (loaded [''application/gzip:*.gz'', ''application/x-compressed-tar:*.tar.gz''])
        (py_suffixes (name (binary_file ''data.tar.gz''))) = ''.tar.gz''
   \<and> extension (loaded [''application/gzip:*.gz'', ''application/x-compressed-tar:*.tar.gz'']) (binary_file ''data.tar.gz'') = ''.gz''"
  by (simp add: eval_defs binary_file_def)

text \<open>
  Claim C1, amended. When no dot-suffix of the name before position \<open>i\<close> is a key of the
  extension table and every dot-suffix from position \<open>i\<close> on is one, each taken alone,
  the resolved extension is the chain of suffixes from position \<open>i\<close> to the end. In
  particular, for a path named \<^verbatim>\<open>data.tar.gz\<close> and a registry whose keys include
  \<^verbatim>\<open>.tar\<close> and \<^verbatim>\<open>.gz\<close>, the resolver returns \<^verbatim>\<open>.tar.gz\<close>.
\<close>

theorem extension_chain_of_registered_suffixes:
  assumes "\<forall>s \<in> set (take i (py_suffixes (name p))). ext2mime_map r s = None"
    and "\<forall>s \<in> set (drop i (py_suffixes (name p))). ext2mime_map r s \<noteq> None"
  shows "extension r p = concat (drop i (py_suffixes (name p)))"
proof -
  let ?sfx = "py_suffixes (name p)"
  let ?reg = "\<lambda>s. ext2mime_map r s \<noteq> None"
  have "filter ?reg ?sfx = filter ?reg (take i ?sfx) @ filter ?reg (drop i ?sfx)"
    by (metis append_take_drop_id filter_append)
  moreover from assms(1) have "filter ?reg (take i ?sfx) = []"
    by (simp add: filter_empty_conv)
  moreover from assms(2) have "filter ?reg (drop i ?sfx) = drop i ?sfx"
    by (simp add: filter_id_conv)
  ultimately show ?thesis
    by (simp add: extension_def extension_loop_filter)
qed

theorem extension_chain_of_registered_suffixes_witness:
  "py_suffixes (name (binary_file ''data.tar.gz'')) = [''.tar'', ''.gz'']
   \<and> ext2mime_map (loaded [''application/x-tar:*.tar'', ''application/gzip:*.gz'',
        ''application/x-compressed-tar:*.tar.gz'']) ''.tar''
     = Some [''application/x-tar'']
   \<and> ext2mime_map (loaded [''application/x-tar:*.tar'', ''application/gzip:*.gz'',
        ''application/x-compressed-tar:*.tar.gz'']) ''.gz''
     = Some [''application/gzip'']
   \<and> extension (loaded [''application/x-tar:*.tar'', ''application/gzip:*.gz'',
        ''application/x-compressed-tar:*.tar.gz'']) (binary_file ''data.tar.gz'') = ''.tar.gz''"
proof -
  let ?r = "loaded [''application/x-tar:*.tar'', ''application/gzip:*.gz'',
        ''application/x-compressed-tar:*.tar.gz'']"
  let ?p = "binary_file ''data.tar.gz''"
  have sfx: "py_suffixes (name ?p) = [''.tar'', ''.gz'']"
    by (simp add: eval_defs binary_file_def)
  have tar: "ext2mime_map ?r ''.tar'' = Some [''application/x-tar'']"
    and gz: "ext2mime_map ?r ''.gz'' = Some [''application/gzip'']"
    by (simp_all add: eval_defs)
  have before: "\<forall>s \<in> set (take 0 (py_suffixes (name ?p))). ext2mime_map ?r s = None"
    by simp
  have after: "\<forall>s \<in> set (drop 0 (py_suffixes (name ?p))). ext2mime_map ?r s \<noteq> None"
    using sfx tar gz by simp
  have "extension ?r ?p = concat (drop 0 (py_suffixes (name ?p)))"
    by (rule extension_chain_of_registered_suffixes [OF before after])
  with sfx tar gz show ?thesis by simp
qed

text \<open>
  Claim C6. \<^verbatim>\<open>exts\<close> resolves the path and asks whether the result is a regular file;
  when it is not, the result is \<^verbatim>\<open>None\<close>, whatever dot-suffixes the name carries.
\<close>

theorem exts_not_regular_file:
  "os_resolve_error p = None \<Longrightarrow> is_file p = Inr False \<Longrightarrow> exts p = Inr None"
  by (simp add: exts_def)

theorem exts_not_regular_file_witness:
  "os_resolve_error (directory ''backup.tar.gz'') = None
   \<and> is_file (directory ''backup.tar.gz'') = Inr False
   \<and> py_suffixes (name (directory ''backup.tar.gz'')) = [''.tar'', ''.gz'']
   \<and> exts (directory ''backup.tar.gz'') = Inr None"
proof -
  have a: "os_resolve_error (directory ''backup.tar.gz'') = None"
    and b: "is_file (directory ''backup.tar.gz'') = Inr False"
    and c: "py_suffixes (name (directory ''backup.tar.gz'')) = [''.tar'', ''.gz'']"
    by (simp_all add: directory_def is_file_def eval_defs)
  from exts_not_regular_file [OF a b] a b c show ?thesis by simp
qed

section \<open>Properties of the MIME lookup and the classifiers\<close>

text \<open>
  Claim C7. The MIME lookup on the resolved extension returns the MIME type as a string
  when exactly one is registered for it, the list in its order when more than one is
  registered, and \<^verbatim>\<open>None\<close>, not an exception, when the extension is not registered.
\<close>

theorem mime_scalar_list_or_none:
  "(ext2mime_map r (extension r p) = Some [m] \<longrightarrow> mime r p = PyStr m)
   \<and> (ext2mime_map r (extension r p) = Some ms \<and> 1 < length ms \<longrightarrow> mime r p = PyList ms)
   \<and> (ext2mime_map r (extension r p) = None \<longrightarrow> mime r p = PyNone)"
  by (auto simp: mime_def Let_def)

theorem mime_scalar_list_or_none_witness:
  "ext2mime_map (loaded [''text/plain:*.txt'', ''audio/ogg:*.ogg'', ''video/x-theora+ogg:*.ogg''])
      (extension (loaded [''text/plain:*.txt'', ''audio/ogg:*.ogg'', ''video/x-theora+ogg:*.ogg'']) (binary_file ''notes.txt''))
     = Some [''text/plain'']
   \<and> mime (loaded [''text/plain:*.txt'', ''audio/ogg:*.ogg'', ''video/x-theora+ogg:*.ogg'']) (binary_file ''notes.txt'')
     = PyStr ''text/plain''
   \<and> ext2mime_map (loaded [''text/plain:*.txt'', ''audio/ogg:*.ogg'', ''video/x-theora+ogg:*.ogg''])
      (extension (loaded [''text/plain:*.txt'', ''audio/ogg:*.ogg'', ''video/x-theora+ogg:*.ogg'']) (binary_file ''a.ogg''))
     = Some [''audio/ogg'', ''video/x-theora+ogg'']
   \<and> mime (loaded [''text/plain:*.txt'', ''audio/ogg:*.ogg'', ''video/x-theora+ogg:*.ogg'']) (binary_file ''a.ogg'')
     = PyList [''audio/ogg'', ''video/x-theora+ogg'']
   \<and> ext2mime_map (loaded [''text/plain:*.txt'', ''audio/ogg:*.ogg'', ''video/x-theora+ogg:*.ogg''])
      (extension (loaded [''text/plain:*.txt'', ''audio/ogg:*.ogg'', ''video/x-theora+ogg:*.ogg'']) (binary_file ''file.xyz123''))
     = None
   \<and> mime (loaded [''text/plain:*.txt'', ''audio/ogg:*.ogg'', ''video/x-theora+ogg:*.ogg'']) (binary_file ''file.xyz123'')
     = PyNone"
proof -
  let ?r = "loaded [''text/plain:*.txt'', ''audio/ogg:*.ogg'', ''video/x-theora+ogg:*.ogg'']"
  have one: "ext2mime_map ?r (extension ?r (binary_file ''notes.txt'')) = Some [''text/plain'']"
    by (simp add: eval_defs binary_file_def)
  have many: "ext2mime_map ?r (extension ?r (binary_file ''a.ogg''))
      = Some [''audio/ogg'', ''video/x-theora+ogg'']"
    by (simp add: eval_defs binary_file_def)
  have none: "ext2mime_map ?r (extension ?r (binary_file ''file.xyz123'')) = None"
    by (simp add: eval_defs binary_file_def)
  from one mime_scalar_list_or_none [of ?r "binary_file ''notes.txt''" "''text/plain''"]
  have "mime ?r (binary_file ''notes.txt'') = PyStr ''text/plain''" by blast
  moreover from many
    mime_scalar_list_or_none [of ?r "binary_file ''a.ogg''" _
      "[''audio/ogg'', ''video/x-theora+ogg'']"]
  have "mime ?r (binary_file ''a.ogg'') = PyList [''audio/ogg'', ''video/x-theora+ogg'']"
    by simp
  moreover from none mime_scalar_list_or_none [of ?r "binary_file ''file.xyz123''"]
  have "mime ?r (binary_file ''file.xyz123'') = PyNone" by blast
  ultimately show ?thesis using one many none by simp
qed

text \<open>
  Claim C3. The claim: the resolver and the classifiers never raise, and every "not found"
  is a value. The code breaks it. For a readable binary file named
  \<^verbatim>\<open>file.xyz123\<close>, whose suffix is not registered, the resolved extension is empty
  and the MIME lookup gives \<^verbatim>\<open>None\<close>; \<^verbatim>\<open>is_video\<close>, \<^verbatim>\<open>is_audio\<close> and
  \<^verbatim>\<open>is_font\<close> then evaluate \<^verbatim>\<open>'' in None\<close>, which raises \<^verbatim>\<open>TypeError\<close>.
\<close>

theorem classifiers_raise_on_unresolved_extension:
  "extension (loaded [''text/plain:*.txt'']) (binary_file ''file.xyz123'') = []
   \<and> mime (loaded [''text/plain:*.txt'']) (binary_file ''file.xyz123'') = PyNone
   \<and> is_binary (binary_file ''file.xyz123'') = Inr True
   \<and> is_video (loaded [''text/plain:*.txt'']) (binary_file ''file.xyz123'') = Inl TypeError
   \<and> is_audio (loaded [''text/plain:*.txt'']) (binary_file ''file.xyz123'') = Inl TypeError
   \<and> is_font (loaded [''text/plain:*.txt'']) (binary_file ''file.xyz123'') = Inl TypeError"
  by (simp add: eval_defs prop_defs binary_file_def)

text \<open>
  Claim C4. The claim: when the extension maps to a list of several MIME types, the
  classifier tests each string of the list for the substring. The code applies
  \<^verbatim>\<open>in\<close> to the list itself, which looks for an element equal to the whole string.
  For a binary file named \<^verbatim>\<open>clip.ogg\<close> whose extension maps to
  \<^verbatim>\<open>['audio/ogg', 'video/x-theora+ogg']\<close>, both \<^verbatim>\<open>ogg\<close> and \<^verbatim>\<open>video\<close> occur
  in strings of the list, and \<^verbatim>\<open>is_video\<close> and \<^verbatim>\<open>is_audio\<close> are false.
\<close>

theorem classifiers_test_list_membership:
  "mime (loaded [''audio/ogg:*.ogg'', ''video/x-theora+ogg:*.ogg'']) (binary_file ''clip.ogg'')
     = PyList [''audio/ogg'', ''video/x-theora+ogg'']
   \<and> is_binary (binary_file ''clip.ogg'') = Inr True
   \<and> strip ''.'' (extension (loaded [''audio/ogg:*.ogg'', ''video/x-theora+ogg:*.ogg'']) (binary_file ''clip.ogg'')) = ''ogg''
   \<and> str_contains ''video/x-theora+ogg'' ''video''
   \<and> str_contains ''audio/ogg'' ''audio''
   \<and> str_contains ''audio/ogg'' ''ogg''
   \<and> is_video (loaded [''audio/ogg:*.ogg'', ''video/x-theora+ogg:*.ogg'']) (binary_file ''clip.ogg'') = Inr False
   \<and> is_audio (loaded [''audio/ogg:*.ogg'', ''video/x-theora+ogg:*.ogg'']) (binary_file ''clip.ogg'') = Inr False"
  by (simp add: eval_defs prop_defs binary_file_def)

text \<open>
  Claim C5, as stated, fails. For a regular file named \<^verbatim>\<open>a.gz\<close> that the caller may
  not read, so that \<^verbatim>\<open>os.access\<close> says no and opening it would fail,
  \<^verbatim>\<open>is_compressed\<close> returns false: the guard \<^verbatim>\<open>self.is_readable and ...\<close> of
  \<^verbatim>\<open>is_binary\<close> answers before the sniffer is called.
\<close>

theorem is_compressed_unreadable_counterexample:
  "os_access (unreadable_file ''a.gz'') F_R = False
   \<and> sniff_binary (unreadable_file ''a.gz'') = Inl OSError
   \<and> extension (loaded [''application/gzip:*.gz'']) (unreadable_file ''a.gz'') = ''.gz''
   \<and> is_compressed (loaded [''application/gzip:*.gz'']) (unreadable_file ''a.gz'') = Inr False"
  by (simp add: eval_defs prop_defs unreadable_file_def)

text \<open>
  Claim C5, amended. For every path that is not readable (\<^verbatim>\<open>is_readable\<close> is false),
  \<^verbatim>\<open>is_binary\<close> and \<^verbatim>\<open>is_compressed\<close> are false and the sniffer is not called; a
  failure of the sniffer reaches the caller unchanged only when the path was found
  readable first.
\<close>

theorem is_compressed_unreadable_is_false:
  "(is_readable p = Inr False \<longrightarrow> is_binary p = Inr False \<and> is_compressed r p = Inr False)
   \<and> (is_readable p = Inr True \<and> os_resolve_error p = None \<and> sniff_binary p = Inl e \<longrightarrow>
        is_compressed r p = Inl e)"
  by (simp add: is_compressed_def is_binary_def)

theorem is_compressed_unreadable_is_false_witness:
  "is_readable (unreadable_file ''a.gz'') = Inr False
   \<and> is_compressed (loaded [''application/gzip:*.gz'']) (unreadable_file ''a.gz'') = Inr False
   \<and> is_readable (directory ''a.gz'') = Inr True
   \<and> os_resolve_error (directory ''a.gz'') = None
   \<and> sniff_binary (directory ''a.gz'') = Inl OSError
   \<and> is_compressed (loaded [''application/gzip:*.gz'']) (directory ''a.gz'') = Inl OSError"
proof -
  let ?r = "loaded [''application/gzip:*.gz'']"
  have a: "is_readable (unreadable_file ''a.gz'') = Inr False"
    by (simp add: prop_defs unreadable_file_def)
  have b: "is_readable (directory ''a.gz'') = Inr True
      \<and> os_resolve_error (directory ''a.gz'') = None
      \<and> sniff_binary (directory ''a.gz'') = Inl OSError"
    by (simp add: prop_defs directory_def)
  from a is_compressed_unreadable_is_false [of "unreadable_file ''a.gz''" ?r]
  have "is_compressed ?r (unreadable_file ''a.gz'') = Inr False" by blast
  moreover from b is_compressed_unreadable_is_false [of "directory ''a.gz''" ?r OSError]
  have "is_compressed ?r (directory ''a.gz'') = Inl OSError" by blast
  ultimately show ?thesis using a b by simp
qed

section \<open>Properties of the decompression command\<close>

lemma startswith_append: "startswith s t \<Longrightarrow> \<exists>rest. s = t @ rest"
  by (induction s t rule: startswith.induct) auto

lemma substitute_placeholder:
  "str_contains t ''{}'' \<Longrightarrow>
   \<exists>pre post. t = pre @ ''{}'' @ post \<and> substitute t path = pre @ path @ post"
proof (induction t)
  case Nil
  then show ?case by simp
next
  case (Cons c cs)
  show ?case
  proof (cases "startswith (c # cs) ''{}''")
    case True
    then obtain rest where r: "c # cs = ''{}'' @ rest"
      using startswith_append by blast
    then have "drop 2 (c # cs) = rest" by simp
    with True r have "c # cs = [] @ ''{}'' @ rest \<and> substitute (c # cs) path = [] @ path @ rest"
      by simp
    then show ?thesis by blast
  next
    case False
    with Cons.prems have "str_contains cs ''{}''" by auto
    then obtain pre post where "cs = pre @ ''{}'' @ post" "substitute cs path = pre @ path @ post"
      using Cons.IH by blast
    moreover from False have "substitute (c # cs) path = c # substitute cs path"
      by auto
    ultimately have "c # cs = (c # pre) @ ''{}'' @ post
        \<and> substitute (c # cs) path = (c # pre) @ path @ post"
      by simp
    then show ?thesis by blast
  qed
qed

lemma substitute_no_placeholder: "\<not> str_contains t ''{}'' \<Longrightarrow> substitute t path = t"
  by (induction t) auto

text \<open>
  Claim C8. \<^verbatim>\<open>decompression_command(".gz", "/tmp/a.gz")\<close> is the stored template
  \<^verbatim>\<open>unpigz -p4 "{}" \<close> with \<^verbatim>\<open>/tmp/a.gz\<close> in the place of the placeholder, and
  \<^verbatim>\<open>decompression_command(".ace", path)\<close>, whose template is empty, is absence. For
  every extension with a non-empty template the result is the template with the path
  substituted: the text before the placeholder, the path, the text after it (and the
  template itself when it has no placeholder). For an extension that is not in the table,
  or whose template is empty, the result is absence.
\<close>

theorem decompression_command_substitutes:
  "decompression_command ''.gz'' ''/tmp/a.gz'' = Some ''unpigz -p4 \"/tmp/a.gz\" ''
   \<and> decompression_command ''.ace'' path = None
   \<and> (decompress_cmd_map ext = Some t \<and> t \<noteq> [] \<and> str_contains t ''{}'' \<longrightarrow>
        (\<exists>pre post. t = pre @ ''{}'' @ post
           \<and> decompression_command ext path = Some (pre @ path @ post)))
   \<and> (decompress_cmd_map ext = Some t \<and> t \<noteq> [] \<and> \<not> str_contains t ''{}'' \<longrightarrow>
        decompression_command ext path = Some t)
   \<and> (decompress_cmd_map ext = None \<or> decompress_cmd_map ext = Some [] \<longrightarrow>
        decompression_command ext path = None)"
proof -
  have gz: "decompression_command ''.gz'' ''/tmp/a.gz'' = Some ''unpigz -p4 \"/tmp/a.gz\" ''"
    by (simp add: decompression_command_def decompress_cmd_map_def)
  have ace: "decompression_command ''.ace'' path = None"
    by (simp add: decompression_command_def decompress_cmd_map_def)
  have filled: "decompress_cmd_map ext = Some t \<and> t \<noteq> [] \<and> str_contains t ''{}'' \<longrightarrow>
        (\<exists>pre post. t = pre @ ''{}'' @ post
           \<and> decompression_command ext path = Some (pre @ path @ post))"
    using substitute_placeholder [of t path] by (auto simp: decompression_command_def)
  have plain: "decompress_cmd_map ext = Some t \<and> t \<noteq> [] \<and> \<not> str_contains t ''{}'' \<longrightarrow>
        decompression_command ext path = Some t"
    by (simp add: decompression_command_def substitute_no_placeholder)
  have absent: "decompress_cmd_map ext = None \<or> decompress_cmd_map ext = Some [] \<longrightarrow>
        decompression_command ext path = None"
    by (auto simp: decompression_command_def)
  from gz ace filled plain absent show ?thesis by blast
qed

theorem decompression_command_substitutes_witness:
  "decompress_cmd_map ''.zip'' = Some ''unzip \"{}\"''
   \<and> str_contains ''unzip \"{}\"'' ''{}''
   \<and> (\<exists>pre post. ''unzip \"{}\"'' = pre @ ''{}'' @ post
         \<and> decompression_command ''.zip'' ''/tmp/b.zip'' = Some (pre @ ''/tmp/b.zip'' @ post))
   \<and> decompression_command ''.zip'' ''/tmp/b.zip'' = Some ''unzip \"/tmp/b.zip\"''
   \<and> decompress_cmd_map ''.tar.bz'' = Some ''tar   --use-compress-program=pbzip2 -xf''
   \<and> \<not> str_contains ''tar   --use-compress-program=pbzip2 -xf'' ''{}''
   \<and> decompression_command ''.tar.bz'' ''/tmp/b.tar.bz''
       = Some ''tar   --use-compress-program=pbzip2 -xf''
   \<and> decompress_cmd_map ''.xyz123'' = None
   \<and> decompression_command ''.xyz123'' ''/tmp/b.xyz123'' = None"
proof -
  have zip: "decompress_cmd_map ''.zip'' = Some ''unzip \"{}\"''"
    and bz: "decompress_cmd_map ''.tar.bz'' = Some ''tar   --use-compress-program=pbzip2 -xf''"
    and unknown: "decompress_cmd_map ''.xyz123'' = None"
    by (simp_all add: decompress_cmd_map_def)
  have ph: "str_contains ''unzip \"{}\"'' ''{}''"
    and no_ph: "\<not> str_contains ''tar   --use-compress-program=pbzip2 -xf'' ''{}''"
    by simp_all
  have zipped: "decompression_command ''.zip'' ''/tmp/b.zip'' = Some ''unzip \"/tmp/b.zip\"''"
    by (simp add: decompression_command_def zip)
  from zip ph
    decompression_command_substitutes [of "''/tmp/b.zip''" "''.zip''" "''unzip \"{}\"''"]
  have filled: "\<exists>pre post. ''unzip \"{}\"'' = pre @ ''{}'' @ post
         \<and> decompression_command ''.zip'' ''/tmp/b.zip'' = Some (pre @ ''/tmp/b.zip'' @ post)"
    by simp
  from bz no_ph
    decompression_command_substitutes [of "''/tmp/b.tar.bz''" "''.tar.bz''"
      "''tar   --use-compress-program=pbzip2 -xf''"]
  have plain: "decompression_command ''.tar.bz'' ''/tmp/b.tar.bz''
       = Some ''tar   --use-compress-program=pbzip2 -xf''"
    by simp
  from unknown decompression_command_substitutes [of "''/tmp/b.xyz123''" "''.xyz123''"]
  have absent: "decompression_command ''.xyz123'' ''/tmp/b.xyz123'' = None"
    by simp
  from zip ph filled zipped bz no_ph plain unknown absent show ?thesis by blast
qed

end
